theory Spec2Isabelle
  imports Main
begin

unbundle bit_operations_syntax

section \<open>Python strings\<close>

text \<open>
  A Python \<open>str\<close> is a sequence of code points. The model is \<open>string\<close>, a list of
  \<open>char\<close>, each \<open>char\<close> standing for the code point \<open>of_char c\<close> in the range
  U+0000 .. U+00FF. On that range \<open>str.isspace\<close>, \<open>str.strip\<close>, \<open>str.lower\<close> and
  \<open>str.encode\<close> (UTF-8) are as follows. (Strings of any code points, where
  \<open>str.encode\<close> can raise, have a section of their own below.)
\<close>

definition isspace :: "char \<Rightarrow> bool" where
  "isspace c = (of_char c \<in> set [9, 10, 11, 12, 13, 28, 29, 30, 31, 32, 133, 160 :: nat])"

definition strip :: "string \<Rightarrow> string" where
  "strip s = rev (dropWhile isspace (rev (dropWhile isspace s)))"

definition lower_char :: "char \<Rightarrow> char" where
  "lower_char c =
     (let n = of_char c :: nat
      in if (65 \<le> n \<and> n \<le> 90) \<or> (192 \<le> n \<and> n \<le> 222 \<and> n \<noteq> 215)
         then char_of (n + 32) else c)"

definition lower :: "string \<Rightarrow> string" where
  "lower s = map lower_char s"

text \<open>\<open>s.encode()\<close>: one byte below U+0080, two bytes from there to U+00FF.\<close>

definition encode_char :: "char \<Rightarrow> nat list" where
  "encode_char c =
     (let n = of_char c :: nat
      in if n < 128 then [n] else [192 + n div 64, 128 + n mod 64])"

definition encode :: "string \<Rightarrow> nat list" where
  "encode s = concat (map encode_char s)"

section \<open>hashlib.md5\<close>

text \<open>
  The digest function of the library, after RFC 1321. Bytes are numbers below 256 and
  32-bit words are numbers below \<open>2 ^ 32\<close>, with the wrap-around written out.
\<close>

definition md5_s :: "nat list" where
  "md5_s = [7, 12, 17, 22, 7, 12, 17, 22, 7, 12, 17, 22, 7, 12, 17, 22,
            5, 9, 14, 20, 5, 9, 14, 20, 5, 9, 14, 20, 5, 9, 14, 20,
            4, 11, 16, 23, 4, 11, 16, 23, 4, 11, 16, 23, 4, 11, 16, 23,
            6, 10, 15, 21, 6, 10, 15, 21, 6, 10, 15, 21, 6, 10, 15, 21]"

definition md5_K :: "nat list" where
  "md5_K = [0xd76aa478, 0xe8c7b756, 0x242070db, 0xc1bdceee, 0xf57c0faf, 0x4787c62a,
            0xa8304613, 0xfd469501, 0x698098d8, 0x8b44f7af, 0xffff5bb1, 0x895cd7be,
            0x6b901122, 0xfd987193, 0xa679438e, 0x49b40821, 0xf61e2562, 0xc040b340,
            0x265e5a51, 0xe9b6c7aa, 0xd62f105d, 0x02441453, 0xd8a1e681, 0xe7d3fbc8,
            0x21e1cde6, 0xc33707d6, 0xf4d50d87, 0x455a14ed, 0xa9e3e905, 0xfcefa3f8,
            0x676f02d9, 0x8d2a4c8a, 0xfffa3942, 0x8771f681, 0x6d9d6122, 0xfde5380c,
            0xa4beea44, 0x4bdecfa9, 0xf6bb4b60, 0xbebfbc70, 0x289b7ec6, 0xeaa127fa,
            0xd4ef3085, 0x04881d05, 0xd9d4d039, 0xe6db99e5, 0x1fa27cf8, 0xc4ac5665,
            0xf4292244, 0x432aff97, 0xab9423a7, 0xfc93a039, 0x655b59c3, 0x8f0ccc92,
            0xffeff47d, 0x85845dd1, 0x6fa87e4f, 0xfe2ce6e0, 0xa3014314, 0x4e0811a1,
            0xf7537e82, 0xbd3af235, 0x2ad7d2bb, 0xeb86d391]"

definition add32 :: "nat \<Rightarrow> nat \<Rightarrow> nat" where
  "add32 a b = (a + b) mod 4294967296"

definition not32 :: "nat \<Rightarrow> nat" where
  "not32 a = 4294967295 - a mod 4294967296"

definition rotl32 :: "nat \<Rightarrow> nat \<Rightarrow> nat" where
  "rotl32 s x = (x * 2 ^ s) mod 4294967296 + x div 2 ^ (32 - s)"

text \<open>Padding: the byte 0x80, zeros up to 56 modulo 64, the bit length in 8 bytes.\<close>

definition md5_pad :: "nat list \<Rightarrow> nat list" where
  "md5_pad m =
     m @ [128] @ replicate ((119 - length m mod 64) mod 64) 0
       @ map (\<lambda>i. (8 * length m) div 256 ^ i mod 256) [0, 1, 2, 3, 4, 5, 6, 7]"

fun le_words :: "nat list \<Rightarrow> nat list" where
  "le_words (b0 # b1 # b2 # b3 # bs) =
     (b0 + 256 * b1 + 65536 * b2 + 16777216 * b3) # le_words bs"
| "le_words _ = []"

definition md5_F :: "nat \<Rightarrow> nat \<Rightarrow> nat \<Rightarrow> nat \<Rightarrow> nat" where
  "md5_F i b c d =
     (if i < 16 then (b AND c) OR (not32 b AND d)
      else if i < 32 then (d AND b) OR (not32 d AND c)
      else if i < 48 then b XOR c XOR d
      else c XOR (b OR not32 d))"

definition md5_g :: "nat \<Rightarrow> nat" where
  "md5_g i =
     (if i < 16 then i
      else if i < 32 then (5 * i + 1) mod 16
      else if i < 48 then (3 * i + 5) mod 16
      else (7 * i) mod 16)"

fun md5_round ::
  "nat list \<Rightarrow> nat \<Rightarrow> nat \<times> nat \<times> nat \<times> nat \<Rightarrow> nat \<times> nat \<times> nat \<times> nat" where
  "md5_round M i (a, b, c, d) =
     (d,
      add32 b (rotl32 (md5_s ! i)
                 (add32 (add32 (add32 (md5_F i b c d) a) (md5_K ! i)) (M ! md5_g i))),
      b, c)"

fun add_state ::
  "nat \<times> nat \<times> nat \<times> nat \<Rightarrow> nat \<times> nat \<times> nat \<times> nat \<Rightarrow> nat \<times> nat \<times> nat \<times> nat" where
  "add_state (a0, b0, c0, d0) (a, b, c, d) = (add32 a0 a, add32 b0 b, add32 c0 c, add32 d0 d)"

definition md5_block :: "nat \<times> nat \<times> nat \<times> nat \<Rightarrow> nat list \<Rightarrow> nat \<times> nat \<times> nat \<times> nat" where
  "md5_block st M = add_state st (fold (md5_round M) [0..<64] st)"

fun chunks :: "nat \<Rightarrow> 'a list \<Rightarrow> 'a list list" where
  "chunks n [] = []"
| "chunks n (x # xs) =
     (if n = 0 then [x # xs] else take n (x # xs) # chunks n (drop n (x # xs)))"

definition le_bytes :: "nat \<Rightarrow> nat list" where
  "le_bytes w = [w mod 256, w div 256 mod 256, w div 65536 mod 256, w div 16777216 mod 256]"

fun digest_bytes :: "nat \<times> nat \<times> nat \<times> nat \<Rightarrow> nat list" where
  "digest_bytes (a, b, c, d) = le_bytes a @ le_bytes b @ le_bytes c @ le_bytes d"

definition md5 :: "nat list \<Rightarrow> nat list" where
  "md5 m =
     digest_bytes
       (fold (\<lambda>blk st. md5_block st (le_words blk)) (chunks 64 (md5_pad m))
          (0x67452301, 0xefcdab89, 0x98badcfe, 0x10325476))"

text \<open>\<open>hexdigest()\<close>: two lowercase hexadecimal digits per byte.\<close>

definition hexdigit :: "nat \<Rightarrow> char" where
  "hexdigit n = ''0123456789abcdef'' ! n"

definition hexdigest :: "nat list \<Rightarrow> string" where
  "hexdigest bs = concat (map (\<lambda>b. [hexdigit (b div 16), hexdigit (b mod 16)]) bs)"

section \<open>Errors, and the conversion \<open>int(x, 16)\<close>\<close>

text \<open>
  What a handler can raise: the \<open>HTTPException\<close> of the source with its status code and
  detail, the framework's error for a request that lacks a required parameter, and
  Python's \<open>ValueError\<close> and \<open>UnicodeEncodeError\<close>.
\<close>

datatype error =
  HTTPException nat string | RequestValidationError | ValueError | UnicodeEncodeError

text \<open>
  \<open>int(x, 16)\<close> on a string of hexadecimal digits, read from the left; an empty string
  and a character that is no digit raise \<open>ValueError\<close>. (The interpreter also takes a
  sign, a \<open>0x\<close> prefix, underscores and blanks around the digits; a slice of a
  hexdigest has none of them, see \<open>hexdigest_hexval\<close>.)
\<close>

definition hexval :: "char \<Rightarrow> nat option" where
  "hexval c =
     (let n = of_char c :: nat
      in if 48 \<le> n \<and> n \<le> 57 then Some (n - 48)
         else if 97 \<le> n \<and> n \<le> 102 then Some (n - 87)
         else if 65 \<le> n \<and> n \<le> 70 then Some (n - 55)
         else None)"

fun int_digits :: "int \<Rightarrow> string \<Rightarrow> error + int" where
  "int_digits acc [] = Inr acc"
| "int_digits acc (c # cs) =
     (case hexval c of
        None \<Rightarrow> Inl ValueError
      | Some d \<Rightarrow> int_digits (acc * 16 + int d) cs)"

definition int_base16 :: "string \<Rightarrow> error + int" where
  "int_base16 x = (if x = [] then Inl ValueError else int_digits 0 x)"

section \<open>The derived seed\<close>

text \<open>\<open>seed_hash = int(hashlib.md5(s.encode()).hexdigest()[:8], 16)\<close>\<close>

definition seed_hash :: "string \<Rightarrow> error + int" where
  "seed_hash s = int_base16 (take 8 (hexdigest (md5 (encode s))))"

section \<open>The format specification \<open>02x\<close>\<close>

text \<open>
  \<open>f"{r:02x}"\<close> writes an integer in lowercase hexadecimal, a minus sign first when it
  is negative, and fills with zeros after the sign up to a width of two characters.
\<close>

fun hex_digits :: "nat \<Rightarrow> string" where
  "hex_digits n =
     (if n < 16 then [hexdigit n] else hex_digits (n div 16) @ [hexdigit (n mod 16)])"

declare hex_digits.simps [simp del]

definition format_02x :: "int \<Rightarrow> string" where
  "format_02x r =
     (if r < 0
      then CHR ''-'' # replicate (1 - length (hex_digits (nat (- r)))) CHR ''0''
             @ hex_digits (nat (- r))
      else replicate (2 - length (hex_digits (nat r))) CHR ''0'' @ hex_digits (nat r))"

text \<open>\<open>f"#{r:02x}{g:02x}{b:02x}"\<close>\<close>

definition format_color :: "int \<Rightarrow> int \<Rightarrow> int \<Rightarrow> string" where
  "format_color r g b = CHR ''#'' # format_02x r @ format_02x g @ format_02x b"

section \<open>The module \<open>random\<close>\<close>

text \<open>
  \<open>random.seed\<close> and \<open>random.randint\<close> act on the one generator object that the module
  keeps for the whole process. The state of that object is the type \<open>'g\<close>; every
  function that touches it takes the state and returns the new one. The two library
  functions are parameters of the model.
\<close>

record 'g random_module =
  rnd_seed :: "int \<Rightarrow> 'g \<Rightarrow> 'g"
  rnd_randint :: "int \<Rightarrow> int \<Rightarrow> 'g \<Rightarrow> int \<times> 'g"

text \<open>
  What the library documents of them: seeding initialises the generator from its
  argument, whatever state it was in, and \<open>randint(a, b)\<close> returns an integer \<open>N\<close>
  with \<open>a \<le> N \<le> b\<close>.
\<close>

definition seed_resets :: "'g random_module \<Rightarrow> bool" where
  "seed_resets rnd = (\<forall>a g g'. rnd_seed rnd a g = rnd_seed rnd a g')"

definition randint_in_range :: "'g random_module \<Rightarrow> bool" where
  "randint_in_range rnd =
     (\<forall>a b g. a \<le> b \<longrightarrow> a \<le> fst (rnd_randint rnd a b g) \<and> fst (rnd_randint rnd a b g) \<le> b)"

text \<open>
  A small linear congruential generator with that contract, for applying the theorems
  to concrete inputs.
\<close>

definition lcg_next :: "nat \<Rightarrow> nat" where
  "lcg_next g = (1103515245 * g + 12345) mod 2147483648"

definition lcg_random :: "nat random_module" where
  "lcg_random =
     \<lparr>rnd_seed = (\<lambda>a g. nat \<bar>a\<bar> mod 2147483648),
      rnd_randint = (\<lambda>a b g. (a + int (lcg_next g div 65536) mod (b - a + 1), lcg_next g))\<rparr>"

section \<open>The handlers\<close>

record HelloResponse =
  message :: string

text \<open>\<open>hello_name\<close> (the handler of \<open>/hello/{name}\<close>).\<close>

definition hello_name :: "string \<Rightarrow> error + HelloResponse" where
  "hello_name name =
     (if name = [] \<or> strip name = []
      then Inl (HTTPException 400 ''Name cannot be empty'')
      else Inr \<lparr>message = ''Hello, '' @ name @ ''!''\<rparr>)"

text \<open>
  The loop \<open>for _ in range(5)\<close> of \<open>get_palette\<close>: the first argument counts the
  iterations that remain, \<open>colors\<close> is the list built so far.
\<close>

fun color_loop :: "'g random_module \<Rightarrow> nat \<Rightarrow> string list \<Rightarrow> 'g \<Rightarrow> string list \<times> 'g" where
  "color_loop rnd 0 colors g = (colors, g)"
| "color_loop rnd (Suc k) colors g =
     (let (r, g1) = rnd_randint rnd 0 255 g;
          (gr, g2) = rnd_randint rnd 0 255 g1;
          (b, g3) = rnd_randint rnd 0 255 g2
      in color_loop rnd k (colors @ [format_color r gr b]) g3)"

text \<open>The field \<open>keywords\<close> of the source is \<open>keywords'\<close> here.\<close>

record PaletteResponse =
  seed :: string
  colors :: "string list"
  keywords' :: "string list"

text \<open>
  \<open>get_palette\<close> (the handler of \<open>/palette\<close>), from the state of the shared generator
  to the response or the exception raised, and the state it leaves.
\<close>

definition get_palette ::
  "'g random_module \<Rightarrow> string \<Rightarrow> 'g \<Rightarrow> (error + PaletteResponse) \<times> 'g" where
  "get_palette rnd s g =
     (if s = [] \<or> strip s = []
      then (Inl (HTTPException 422 ''s must not be blank''), g)
      else case seed_hash s of
             Inl e \<Rightarrow> (Inl e, g)
           | Inr n \<Rightarrow>
               (let g0 = rnd_seed rnd n g;
                    (cs, g1) = color_loop rnd 5 [] g0;
                    ks = [lower s, s @ ''-vibe'', s @ ''-soft'', s @ ''-bold'', s @ ''-contrast'']
                in (Inr \<lparr>seed = s, colors = cs, keywords' = ks\<rparr>, g1)))"

text \<open>
  The framework around \<open>get_palette\<close>. The parameter is declared \<open>s: str = Query(...)\<close>,
  that is required: a request without \<open>s\<close> does not reach the handler and is answered
  with the framework's validation error. The status of a response to an exception:
  the code an \<open>HTTPException\<close> carries, 422 for the framework's validation error
  (\<open>test_palette_missing_parameter\<close>), 500 for any other exception.
\<close>

definition palette_request ::
  "'g random_module \<Rightarrow> string option \<Rightarrow> 'g \<Rightarrow> (error + PaletteResponse) \<times> 'g" where
  "palette_request rnd q g =
     (case q of
        None \<Rightarrow> (Inl RequestValidationError, g)
      | Some s \<Rightarrow> get_palette rnd s g)"

fun status_code :: "error \<Rightarrow> nat" where
  "status_code (HTTPException c d) = c"
| "status_code RequestValidationError = 422"
| "status_code ValueError = 500"
| "status_code UnicodeEncodeError = 500"

section \<open>Strings of any code points\<close>

text \<open>
  A \<open>str\<close> can hold every code point up to U+10FFFF, a lone surrogate (U+D800 to
  U+DFFF) included, and on a surrogate \<open>s.encode()\<close> raises \<open>UnicodeEncodeError\<close>. For
  what \<open>get_palette\<close> raises on such strings, here is the handler on lists of code
  points, with \<open>str.isspace\<close>, \<open>str.strip\<close> and \<open>str.encode\<close> on all of them. The
  builtin \<open>str.lower\<close> is a parameter. (The lists of the model can hold numbers from
  0x110000 on, which no \<open>str\<close> holds; they are encoded like the code points of four
  bytes.)
\<close>

definition cps :: "string \<Rightarrow> nat list" where
  "cps s = map of_char s"

definition isspace_u :: "nat \<Rightarrow> bool" where
  "isspace_u c =
     (c \<in> set [9, 10, 11, 12, 13, 28, 29, 30, 31, 32, 133, 160, 5760,
                8192, 8193, 8194, 8195, 8196, 8197, 8198, 8199, 8200, 8201, 8202,
                8232, 8233, 8239, 8287, 12288])"

definition strip_u :: "nat list \<Rightarrow> nat list" where
  "strip_u s = rev (dropWhile isspace_u (rev (dropWhile isspace_u s)))"

definition surrogate :: "nat \<Rightarrow> bool" where
  "surrogate c = (55296 \<le> c \<and> c \<le> 57343)"

definition encode_cp :: "nat \<Rightarrow> error + nat list" where
  "encode_cp c =
     (if c < 128 then Inr [c]
      else if c < 2048 then Inr [192 + c div 64, 128 + c mod 64]
      else if surrogate c then Inl UnicodeEncodeError
      else if c < 65536 then Inr [224 + c div 4096, 128 + c div 64 mod 64, 128 + c mod 64]
      else Inr [240 + c div 262144, 128 + c div 4096 mod 64, 128 + c div 64 mod 64,
                128 + c mod 64])"

fun encode_u :: "nat list \<Rightarrow> error + nat list" where
  "encode_u [] = Inr []"
| "encode_u (c # cs) =
     (case encode_cp c of
        Inl e \<Rightarrow> Inl e
      | Inr bs \<Rightarrow> (case encode_u cs of Inl e \<Rightarrow> Inl e | Inr bs' \<Rightarrow> Inr (bs @ bs')))"

definition seed_hash_u :: "nat list \<Rightarrow> error + int" where
  "seed_hash_u s =
     (case encode_u s of
        Inl e \<Rightarrow> Inl e
      | Inr bs \<Rightarrow> int_base16 (take 8 (hexdigest (md5 bs))))"

record PaletteResponse_u =
  seed_u :: "nat list"
  colors_u :: "string list"
  keywords_u :: "nat list list"

definition get_palette_u ::
  "'g random_module \<Rightarrow> (nat list \<Rightarrow> nat list) \<Rightarrow> nat list \<Rightarrow> 'g
     \<Rightarrow> (error + PaletteResponse_u) \<times> 'g" where
  "get_palette_u rnd low s g =
     (if s = [] \<or> strip_u s = []
      then (Inl (HTTPException 422 ''s must not be blank''), g)
      else case seed_hash_u s of
             Inl e \<Rightarrow> (Inl e, g)
           | Inr n \<Rightarrow>
               (let g0 = rnd_seed rnd n g;
                    (cs, g1) = color_loop rnd 5 [] g0;
                    ks = [low s, s @ cps ''-vibe'', s @ cps ''-soft'', s @ cps ''-bold'',
                          s @ cps ''-contrast'']
                in (Inr \<lparr>seed_u = s, colors_u = cs, keywords_u = ks\<rparr>, g1)))"

text \<open>
  A response of \<open>get_palette\<close> as one of \<open>get_palette_u\<close>, and \<open>str.lower\<close> as far as
  the model has it: \<open>lower_char\<close> below U+0100, and a stand-in that changes nothing
  from there on, for applying the theorems to concrete inputs.
\<close>

definition widen :: "PaletteResponse \<Rightarrow> PaletteResponse_u" where
  "widen p = \<lparr>seed_u = cps (seed p), colors_u = colors p, keywords_u = map cps (keywords' p)\<rparr>"

definition lower_u :: "nat list \<Rightarrow> nat list" where
  "lower_u s = map (\<lambda>c. if c < 256 then of_char (lower_char (char_of c)) else c) s"

section \<open>Notions of the specification\<close>

text \<open>
  The derived numeric seed in the specification's words: the first 8 hexadecimal
  characters of the digest's hex representation, parsed as a 32-bit unsigned integer
  (a register of 32 bits that takes one digit after the other).
\<close>

definition digit_value :: "char \<Rightarrow> nat" where
  "digit_value c = (case hexval c of None \<Rightarrow> 0 | Some d \<Rightarrow> d)"

definition parse_u32 :: "string \<Rightarrow> nat" where
  "parse_u32 cs = fold (\<lambda>c w. (w * 16 + digit_value c) mod 2 ^ 32) cs 0"

definition derived_numeric_seed :: "string \<Rightarrow> nat" where
  "derived_numeric_seed s = parse_u32 (take 8 (hexdigest (md5 (encode s))))"

text \<open>
  The first \<open>k\<close> integers drawn in [0, 255] from a generator state, one after the
  other, and the state after the last of them.
\<close>

fun draws :: "'g random_module \<Rightarrow> nat \<Rightarrow> 'g \<Rightarrow> int list" where
  "draws rnd 0 g = []"
| "draws rnd (Suc k) g =
     fst (rnd_randint rnd 0 255 g) # draws rnd k (snd (rnd_randint rnd 0 255 g))"

fun drawn_state :: "'g random_module \<Rightarrow> nat \<Rightarrow> 'g \<Rightarrow> 'g" where
  "drawn_state rnd 0 g = g"
| "drawn_state rnd (Suc k) g = drawn_state rnd k (snd (rnd_randint rnd 0 255 g))"

text \<open>A sequence of draws read three at a time as red, green, blue.\<close>

fun rgb_strings :: "int list \<Rightarrow> string list" where
  "rgb_strings (r # g # b # xs) = format_color r g b # rgb_strings xs"
| "rgb_strings _ = []"

text \<open>The pattern \<open>#[0-9a-f]{6}\<close>, matched exactly.\<close>

definition lower_hexdigit :: "char \<Rightarrow> bool" where
  "lower_hexdigit x = (x \<in> set ''0123456789abcdef'')"

definition hex_color :: "string \<Rightarrow> bool" where
  "hex_color c = (length c = 7 \<and> take 1 c = ''#'' \<and> list_all lower_hexdigit (drop 1 c))"

definition byte_range :: "int \<Rightarrow> bool" where
  "byte_range x = (0 \<le> x \<and> x \<le> 255)"

section \<open>Properties of the digest and of the conversion\<close>

lemma le_bytes_shape: "length (le_bytes w) = 4 \<and> (\<forall>b\<in>set (le_bytes w). b < 256)"
  by (simp add: le_bytes_def)

lemma digest_bytes_shape:
  "length (digest_bytes st) = 16 \<and> (\<forall>b\<in>set (digest_bytes st). b < 256)"
proof -
  obtain a b c d where st: "st = (a, b, c, d)"
    by (cases st) auto
  show ?thesis
    using le_bytes_shape [of a] le_bytes_shape [of b] le_bytes_shape [of c] le_bytes_shape [of d]
    unfolding st by auto
qed

lemma md5_length: "length (md5 m) = 16"
  by (simp add: md5_def digest_bytes_shape)

lemma md5_bytes: "b \<in> set (md5 m) \<Longrightarrow> b < 256"
  using digest_bytes_shape unfolding md5_def by blast

lemma hexdigest_length: "length (hexdigest bs) = 2 * length bs"
  by (induction bs) (simp_all add: hexdigest_def)

lemma upt_16: "[0..<16] = [0, 1, 2, 3, 4, 5, 6, 7, 8, 9, 10, 11, 12, 13, 14, 15]"
  by code_simp

lemma hexval_hexdigit: "n < 16 \<Longrightarrow> hexval (hexdigit n) = Some n"
proof -
  assume "n < 16"
  then have "n \<in> set [0..<16]"
    by simp
  moreover have "\<forall>k\<in>set [0..<16]. hexval (hexdigit k) = Some k"
    unfolding upt_16 by (simp add: hexval_def hexdigit_def)
  ultimately show ?thesis
    by blast
qed

lemma hexval_bound: "hexval c = Some d \<Longrightarrow> d < 16"
  by (auto simp: hexval_def Let_def split: if_splits)

lemma hexdigest_hexval:
  "\<forall>b\<in>set bs. b < 256 \<Longrightarrow> c \<in> set (hexdigest bs) \<Longrightarrow> hexval c \<noteq> None"
proof (induction bs)
  case Nil
  then show ?case by (simp add: hexdigest_def)
next
  case (Cons b bs)
  have b: "b div 16 < 16" "b mod 16 < 16"
    using Cons.prems(1) by auto
  from Cons.prems(2)
  consider "c = hexdigit (b div 16)" | "c = hexdigit (b mod 16)" | "c \<in> set (hexdigest bs)"
    by (auto simp: hexdigest_def)
  then show ?case
  proof cases
    case 1
    then show ?thesis using hexval_hexdigit [OF b(1)] by simp
  next
    case 2
    then show ?thesis using hexval_hexdigit [OF b(2)] by simp
  next
    case 3
    then show ?thesis using Cons.IH Cons.prems(1) by simp
  qed
qed

lemma int_digits_value:
  "\<forall>c\<in>set cs. hexval c \<noteq> None \<Longrightarrow>
   \<exists>v. int_digits acc cs = Inr (acc * 16 ^ length cs + v) \<and> 0 \<le> v \<and> v < 16 ^ length cs"
proof (induction cs arbitrary: acc)
  case Nil
  then show ?case by simp
next
  case (Cons c cs)
  then obtain d where d: "hexval c = Some d"
    by auto
  then have d16: "int d \<le> 15"
    using hexval_bound [of c d] by simp
  from Cons.IH [of "acc * 16 + int d"] Cons.prems
  obtain v where v: "int_digits (acc * 16 + int d) cs = Inr ((acc * 16 + int d) * 16 ^ length cs + v)"
    "0 \<le> v" "v < 16 ^ length cs"
    by auto
  let ?w = "int d * 16 ^ length cs + v"
  define p :: int where "p = 16 ^ length cs"
  have "int d * p \<le> 15 * p"
    using d16 by (intro mult_right_mono) (simp_all add: p_def)
  then have "int d * p + v < 16 * p"
    using v(3) unfolding p_def by linarith
  then have "?w < 16 ^ length (c # cs)"
    by (simp add: p_def)
  moreover have "0 \<le> ?w"
    using v(2) by simp
  moreover have "int_digits acc (c # cs) = Inr (acc * 16 ^ length (c # cs) + ?w)"
    using d v(1) by (simp add: algebra_simps)
  ultimately show ?case
    by blast
qed

lemma seed_hash_digits:
  "length (take 8 (hexdigest (md5 m))) = 8 \<and>
   (\<forall>c\<in>set (take 8 (hexdigest (md5 m))). hexval c \<noteq> None)"
proof -
  have "\<forall>b\<in>set (md5 m). b < 256"
    using md5_bytes by blast
  then have "\<forall>c\<in>set (hexdigest (md5 m)). hexval c \<noteq> None"
    using hexdigest_hexval by blast
  then have "\<forall>c\<in>set (take 8 (hexdigest (md5 m))). hexval c \<noteq> None"
    by (meson in_set_takeD)
  then show ?thesis
    by (simp add: hexdigest_length md5_length)
qed

lemma seed_hash_value:
  "\<exists>n. seed_hash s = Inr n \<and> 0 \<le> n \<and> n < 16 ^ 8"
proof -
  let ?x = "take 8 (hexdigest (md5 (encode s)))"
  have len: "length ?x = 8" and dig: "\<forall>c\<in>set ?x. hexval c \<noteq> None"
    using seed_hash_digits [of "encode s"] by simp_all
  from int_digits_value [OF dig, of 0] len
  obtain v where "int_digits 0 ?x = Inr v" "0 \<le> v" "v < 16 ^ 8"
    by auto
  moreover have "?x \<noteq> []"
    using len by auto
  ultimately show ?thesis
    by (auto simp: seed_hash_def int_base16_def)
qed

section \<open>Stripping\<close>

text \<open>The stripped form of a string is empty exactly when all its characters are blanks.\<close>

lemma strip_Nil: "strip [] = []"
  by (simp add: strip_def)

lemma strip_empty_iff: "strip s = [] \<longleftrightarrow> list_all isspace s"
proof
  assume e: "strip s = []"
  show "list_all isspace s"
  proof (rule ccontr)
    assume "\<not> list_all isspace s"
    then have ne: "dropWhile isspace s \<noteq> []"
      by (simp add: list_all_iff dropWhile_eq_Nil_conv)
    then have "\<not> isspace (hd (dropWhile isspace s))"
      by (rule hd_dropWhile)
    moreover have "hd (dropWhile isspace s) \<in> set (rev (dropWhile isspace s))"
      using ne by simp
    moreover from e have "\<forall>c\<in>set (rev (dropWhile isspace s)). isspace c"
      by (simp only: strip_def rev_is_Nil_conv dropWhile_eq_Nil_conv)
    ultimately show False
      by blast
  qed
next
  assume "list_all isspace s"
  then have "dropWhile isspace s = []"
    by (simp add: list_all_iff dropWhile_eq_Nil_conv)
  then show "strip s = []"
    by (simp add: strip_def del: dropWhile_eq_Nil_conv)
qed

section \<open>Formatting\<close>

lemma hexdigit_lower: "n < 16 \<Longrightarrow> lower_hexdigit (hexdigit n)"
  by (simp add: lower_hexdigit_def hexdigit_def del: set_simps)

lemma format_02x_byte:
  assumes "byte_range r"
  shows "format_02x r = [hexdigit (nat r div 16), hexdigit (nat r mod 16)]"
proof -
  from assms have r: "0 \<le> r" "nat r < 256"
    by (simp_all add: byte_range_def nat_less_iff)
  show ?thesis
  proof (cases "nat r < 16")
    case True
    then have "hex_digits (nat r) = [hexdigit (nat r)]"
      by (simp add: hex_digits.simps)
    moreover have "hexdigit 0 = CHR ''0''"
      by (simp add: hexdigit_def)
    ultimately show ?thesis
      using True r(1) by (simp add: format_02x_def)
  next
    case False
    have "nat r div 16 < 16"
      using r(2) by simp
    then have "hex_digits (nat r div 16) = [hexdigit (nat r div 16)]"
      by (simp add: hex_digits.simps)
    then have "hex_digits (nat r) = [hexdigit (nat r div 16), hexdigit (nat r mod 16)]"
      using False by (subst hex_digits.simps) simp
    then show ?thesis
      using r(1) by (simp add: format_02x_def)
  qed
qed

lemma format_color_hex:
  assumes "byte_range r" "byte_range g" "byte_range b"
  shows "hex_color (format_color r g b)"
proof -
  have d: "\<And>x. byte_range x \<Longrightarrow>
      lower_hexdigit (hexdigit (nat x div 16)) \<and> lower_hexdigit (hexdigit (nat x mod 16))"
    by (intro conjI hexdigit_lower) (simp_all add: byte_range_def nat_less_iff div_less_iff_less_mult)
  show ?thesis
    using d [OF assms(1)] d [OF assms(2)] d [OF assms(3)]
    by (simp add: hex_color_def format_color_def format_02x_byte assms)
qed

section \<open>The loop and the sequence of draws\<close>

lemma draws_length: "length (draws rnd k g) = k"
  by (induction k arbitrary: g) simp_all

lemma draws_range:
  "randint_in_range rnd \<Longrightarrow> list_all byte_range (draws rnd k g)"
proof (induction k arbitrary: g)
  case 0
  then show ?case by simp
next
  case (Suc k)
  have "byte_range (fst (rnd_randint rnd 0 255 g))"
    using Suc.prems by (simp add: randint_in_range_def byte_range_def)
  then show ?case
    using Suc by simp
qed

lemma color_loop_draws:
  "color_loop rnd k acc g =
     (acc @ rgb_strings (draws rnd (3 * k) g), drawn_state rnd (3 * k) g)"
proof (induction k arbitrary: acc g)
  case 0
  then show ?case by simp
next
  case (Suc k)
  have three: "3 * Suc k = Suc (Suc (Suc (3 * k)))"
    by simp
  show ?case
    unfolding three by (simp add: Suc.IH split_beta)
qed

lemma rgb_strings_length: "length (rgb_strings xs) = length xs div 3"
  by (induction xs rule: rgb_strings.induct) simp_all

lemma rgb_strings_hex: "list_all byte_range xs \<Longrightarrow> list_all hex_color (rgb_strings xs)"
  by (induction xs rule: rgb_strings.induct) (simp_all add: format_color_hex)

section \<open>The handler on an input that is not blank\<close>

lemma get_palette_nonblank:
  assumes "strip s \<noteq> []" "seed_hash s = Inr n"
  shows "get_palette rnd s g =
     (Inr \<lparr>seed = s,
           colors = rgb_strings (draws rnd 15 (rnd_seed rnd n g)),
           keywords' = [lower s, s @ ''-vibe'', s @ ''-soft'', s @ ''-bold'', s @ ''-contrast'']\<rparr>,
      drawn_state rnd 15 (rnd_seed rnd n g))"
proof -
  have "s \<noteq> []"
    using assms(1) strip_Nil by auto
  then show ?thesis
    using assms by (simp add: get_palette_def color_loop_draws Let_def)
qed

lemma get_palette_blank:
  assumes "strip s = []"
  shows "get_palette rnd s g = (Inl (HTTPException 422 ''s must not be blank''), g)"
  using assms by (simp add: get_palette_def)

section \<open>The two ways of reading eight digits\<close>

lemma int_digits_fold:
  "\<forall>c\<in>set cs. hexval c \<noteq> None \<Longrightarrow>
   int_digits (int a) cs = Inr (int (fold (\<lambda>c w. w * 16 + digit_value c) cs a))"
proof (induction cs arbitrary: a)
  case Nil
  then show ?case by simp
next
  case (Cons c cs)
  then obtain d where d: "hexval c = Some d"
    by auto
  have "int_digits (int a) (c # cs) = int_digits (int (a * 16 + d)) cs"
    using d by simp
  also have "\<dots> = Inr (int (fold (\<lambda>c w. w * 16 + digit_value c) cs (a * 16 + d)))"
    using Cons.IH [of "a * 16 + d"] Cons.prems by simp
  finally show ?case
    using d by (simp add: digit_value_def)
qed

lemma fold_register:
  "fold (\<lambda>c w. (w * 16 + digit_value c) mod m) cs (a mod m) =
   fold (\<lambda>c w. w * 16 + digit_value c) cs a mod m"
proof (induction cs arbitrary: a)
  case Nil
  then show ?case by simp
next
  case (Cons c cs)
  have "(a mod m * 16 + digit_value c) mod m = (a * 16 + digit_value c) mod m"
    by (metis mod_add_left_eq mod_mult_left_eq)
  then show ?case
    using Cons.IH [of "a * 16 + digit_value c"] by simp
qed

lemma seed_hash_parse_u32: "seed_hash s = Inr (int (derived_numeric_seed s))"
proof -
  let ?x = "take 8 (hexdigest (md5 (encode s)))"
  let ?v = "fold (\<lambda>c w. w * 16 + digit_value c) ?x 0"
  have len: "length ?x = 8" and dig: "\<forall>c\<in>set ?x. hexval c \<noteq> None"
    using seed_hash_digits [of "encode s"] by simp_all
  have ne: "?x \<noteq> []"
    using len by auto
  have plain: "int_digits 0 ?x = Inr (int ?v)"
    using int_digits_fold [OF dig, of 0] by simp
  from int_digits_value [OF dig, of 0] len
  obtain v where "int_digits 0 ?x = Inr v" "v < 16 ^ 8"
    by auto
  with plain have "int ?v < 16 ^ 8"
    by simp
  then have small: "?v < 2 ^ 32"
    by simp
  have "parse_u32 ?x = ?v mod 2 ^ 32"
    using fold_register [of "2 ^ 32" ?x 0] by (simp add: parse_u32_def)
  with small have "parse_u32 ?x = ?v"
    by simp
  then show ?thesis
    using plain ne by (simp add: seed_hash_def int_base16_def derived_numeric_seed_def)
qed

section \<open>The handler on strings of any code points\<close>

text \<open>
  On the code points below U+0100 the functions on code points are those on \<open>string\<close>,
  and \<open>get_palette_u\<close> is \<open>get_palette\<close>; on a string with a lone surrogate
  \<open>s.encode()\<close> raises, before the generator is touched.
\<close>

lemma isspace_u_small:
  "n < 256 \<Longrightarrow> isspace_u n = (n \<in> set [9, 10, 11, 12, 13, 28, 29, 30, 31, 32, 133, 160])"
  by (auto simp: isspace_u_def)

lemma isspace_u_of_char: "isspace_u (of_char c) = isspace c"
  using isspace_u_small [of "of_char c"] by (simp add: isspace_def)

lemma strip_u_cps: "strip_u (cps s) = cps (strip s)"
proof -
  have dw: "dropWhile isspace_u (map of_char xs) = map of_char (dropWhile isspace xs)" for xs
    by (induction xs) (simp_all add: isspace_u_of_char)
  show ?thesis
    by (simp add: strip_u_def strip_def cps_def dw rev_map)
qed

lemma encode_cp_small:
  "n < 256 \<Longrightarrow> encode_cp n = Inr (if n < 128 then [n] else [192 + n div 64, 128 + n mod 64])"
  by (simp add: encode_cp_def)

lemma encode_cp_of_char: "encode_cp (of_char c) = Inr (encode_char c)"
  using encode_cp_small [of "of_char c"] by (simp add: encode_char_def Let_def)

lemma encode_u_cps: "encode_u (cps s) = Inr (encode s)"
  by (induction s) (simp_all add: cps_def encode_def encode_cp_of_char)

lemma encode_cp_error: "encode_cp c = Inl e \<Longrightarrow> e = UnicodeEncodeError \<and> surrogate c"
  by (auto simp: encode_cp_def split: if_splits)

lemma encode_cp_surrogate: "surrogate c \<Longrightarrow> encode_cp c = Inl UnicodeEncodeError"
  by (simp add: encode_cp_def surrogate_def)

lemma encode_u_ok: "\<not> list_ex surrogate s \<Longrightarrow> \<exists>bs. encode_u s = Inr bs"
proof (induction s)
  case Nil
  then show ?case by simp
next
  case (Cons c cs)
  then have "\<not> surrogate c" and "\<exists>bs. encode_u cs = Inr bs"
    by simp_all
  moreover have "\<exists>bs. encode_cp c = Inr bs" if "\<not> surrogate c"
    using that encode_cp_error [of c] by (cases "encode_cp c") auto
  ultimately show ?case
    by auto
qed

lemma encode_u_surrogate: "list_ex surrogate s \<Longrightarrow> encode_u s = Inl UnicodeEncodeError"
proof (induction s)
  case Nil
  then show ?case by simp
next
  case (Cons c cs)
  show ?case
  proof (cases "encode_cp c")
    case (Inl e)
    then show ?thesis
      using encode_cp_error [of c e] by simp
  next
    case (Inr bs)
    then have "\<not> surrogate c"
      using encode_cp_surrogate [of c] by auto
    then have "encode_u cs = Inl UnicodeEncodeError"
      using Cons by simp
    then show ?thesis
      using Inr by simp
  qed
qed

lemma digest_seed_value:
  "\<exists>n. int_base16 (take 8 (hexdigest (md5 m))) = Inr n \<and> 0 \<le> n \<and> n < 16 ^ 8"
proof -
  let ?x = "take 8 (hexdigest (md5 m))"
  have len: "length ?x = 8" and dig: "\<forall>c\<in>set ?x. hexval c \<noteq> None"
    using seed_hash_digits [of m] by simp_all
  from int_digits_value [OF dig, of 0] len
  obtain v where "int_digits 0 ?x = Inr v" "0 \<le> v" "v < 16 ^ 8"
    by auto
  moreover have "?x \<noteq> []"
    using len by auto
  ultimately show ?thesis
    by (auto simp: int_base16_def)
qed

lemma seed_hash_u_cps: "seed_hash_u (cps s) = seed_hash s"
  by (simp add: seed_hash_u_def seed_hash_def encode_u_cps)

lemma seed_hash_u_ok: "\<not> list_ex surrogate s \<Longrightarrow> \<exists>n. seed_hash_u s = Inr n"
proof -
  assume "\<not> list_ex surrogate s"
  then obtain bs where "encode_u s = Inr bs"
    using encode_u_ok by blast
  then show ?thesis
    using digest_seed_value [of bs] by (auto simp: seed_hash_u_def)
qed

lemma seed_hash_u_surrogate: "list_ex surrogate s \<Longrightarrow> seed_hash_u s = Inl UnicodeEncodeError"
  by (simp add: seed_hash_u_def encode_u_surrogate)

lemma seed_hash_u_error: "seed_hash_u s = Inl e \<Longrightarrow> e = UnicodeEncodeError"
proof (cases "list_ex surrogate s")
  case True
  assume "seed_hash_u s = Inl e"
  with True show ?thesis
    by (simp add: seed_hash_u_surrogate)
next
  case False
  assume "seed_hash_u s = Inl e"
  with False show ?thesis
    using seed_hash_u_ok [of s] by auto
qed

lemma strip_u_Nil: "strip_u [] = []"
  by (simp add: strip_u_def)

lemma lower_u_cps: "lower_u (cps s) = cps (lower s)"
  by (simp add: lower_u_def cps_def lower_def)

lemma get_palette_u_latin1:
  assumes "low (cps s) = cps (lower s)"
  shows "get_palette_u rnd low (cps s) g =
     (case fst (get_palette rnd s g) of Inl e \<Rightarrow> Inl e | Inr p \<Rightarrow> Inr (widen p),
      snd (get_palette rnd s g))"
proof (cases "strip s = []")
  case True
  then have "strip_u (cps s) = []"
    using strip_u_cps [of s] by (simp add: cps_def)
  with True show ?thesis
    by (simp add: get_palette_u_def get_palette_def)
next
  case False
  then have ne: "s \<noteq> []"
    using strip_Nil by auto
  obtain n where n: "seed_hash s = Inr n"
    using seed_hash_value by blast
  have u: "strip_u (cps s) \<noteq> []" "cps s \<noteq> []"
    using False ne strip_u_cps [of s] by (simp_all add: cps_def)
  have k: "cps (s @ t) = cps s @ cps t" for t
    by (simp add: cps_def)
  show ?thesis
    using False ne n u assms
    by (simp add: get_palette_u_def get_palette_def seed_hash_u_cps widen_def split_beta Let_def k)
qed

lemma get_palette_u_surrogate:
  assumes "strip_u s \<noteq> []" and "list_ex surrogate s"
  shows "get_palette_u rnd low s g = (Inl UnicodeEncodeError, g)"
proof -
  have "s \<noteq> []"
    using assms(1) strip_u_Nil by auto
  then show ?thesis
    using assms by (simp add: get_palette_u_def seed_hash_u_surrogate)
qed

lemma encode_u_vectors:
  "encode_u [8364] = Inr [226, 130, 172]"
  "encode_u [128512] = Inr [240, 159, 152, 128]"
  "encode_u [26085, 26412, 35486] = Inr [230, 151, 165, 230, 156, 172, 232, 170, 158]"
  "encode_u [97, 55296] = Inl UnicodeEncodeError"
  by (simp_all add: encode_cp_def surrogate_def)

lemma surrogate_raises:
  "get_palette_u lcg_random lower_u [55296] 0 = (Inl UnicodeEncodeError, 0)"
  by (rule get_palette_u_surrogate) (simp_all add: strip_u_def isspace_u_def surrogate_def)

section \<open>Concrete inputs\<close>

text \<open>The digest on strings of the test suite of RFC 1321, of one block and of two.\<close>

lemma replicate_num: "replicate (numeral k) x = x # replicate (pred_numeral k) x"
  by (simp add: numeral_eq_Suc)

lemma upt_64: "[0..<64] = 0 # 1 # [2..<64]"
  by code_simp

lemmas md5_eval =
  md5_def md5_pad_def md5_block_def le_bytes_def md5_K_def md5_s_def upt_64 upt_rec_numeral
  add32_def not32_def rotl32_def md5_F_def md5_g_def replicate_num
  hexdigest_def hexdigit_def encode_def encode_char_def

lemma md5_empty: "hexdigest (md5 (encode [])) = ''d41d8cd98f00b204e9800998ecf8427e''"
  by (simp add: md5_eval)

lemma md5_abc: "hexdigest (md5 (encode ''abc'')) = ''900150983cd24fb0d6963f7d28e17f72''"
  by (simp add: md5_eval)

lemma md5_digits:
  "hexdigest (md5 (encode
     ''12345678901234567890123456789012345678901234567890123456789012345678901234567890'')) =
   ''57edf4a22be3c955ac49da2e2107b67a''"
  by (simp add: md5_eval)

lemma md5_sunset: "hexdigest (md5 (encode ''sunset'')) = ''88eb60614bb67782bd8c18afb4438329''"
  by (simp add: md5_eval)

lemma seed_hash_sunset: "seed_hash ''sunset'' = Inr 2297127009"
  by (simp add: seed_hash_def md5_sunset int_base16_def hexval_def)


lemma seed_hash_u_nihongo: "seed_hash_u [26085, 26412, 35486] = Inr 1116920"
proof -
  have "hexdigest (md5 [230, 151, 165, 230, 156, 172, 232, 170, 158]) =
      ''00110af8b4393ef3f72c50be5b332bec''"
    by (simp add: md5_eval)
  then show ?thesis
    by (simp add: seed_hash_u_def encode_cp_def surrogate_def int_base16_def hexval_def)
qed

lemma strip_sunset: "strip ''sunset'' = ''sunset''"
  by (simp add: strip_def isspace_def)

lemma strip_blanks: "strip ''   '' = []"
  by (simp add: strip_def isspace_def)

lemma lcg_seed: "rnd_seed lcg_random a g = nat \<bar>a\<bar> mod 2147483648"
  by (simp add: lcg_random_def)

lemma lcg_randint:
  "rnd_randint lcg_random a b g = (a + int (lcg_next g div 65536) mod (b - a + 1), lcg_next g)"
  by (simp add: lcg_random_def)

lemma lcg_seed_resets: "seed_resets lcg_random"
  by (simp add: seed_resets_def lcg_seed)

lemma lcg_randint_in_range: "randint_in_range lcg_random"
proof -
  have "a \<le> a + x mod (b - a + 1) \<and> a + x mod (b - a + 1) \<le> b" if "a \<le> b" for a b x :: int
  proof -
    have "0 < b - a + 1"
      using that by simp
    then have "0 \<le> x mod (b - a + 1)" "x mod (b - a + 1) < b - a + 1"
      by (rule pos_mod_sign, rule pos_mod_bound)
    then show ?thesis
      by linarith
  qed
  then show ?thesis
    by (simp add: randint_in_range_def lcg_randint)
qed

lemma draws_num:
  "draws rnd (numeral k) g =
     fst (rnd_randint rnd 0 255 g) # draws rnd (pred_numeral k) (snd (rnd_randint rnd 0 255 g))"
  by (simp add: numeral_eq_Suc)

lemma drawn_state_num:
  "drawn_state rnd (numeral k) g =
     drawn_state rnd (pred_numeral k) (snd (rnd_randint rnd 0 255 g))"
  by (simp add: numeral_eq_Suc)

lemma draws_sunset:
  "draws lcg_random 15 (rnd_seed lcg_random 2297127009 g) =
     [155, 194, 147, 28, 220, 44, 154, 38, 174, 208, 35, 31, 153, 176, 155]"
  by (simp add: draws_num lcg_seed lcg_randint lcg_next_def)

lemma drawn_state_sunset:
  "drawn_state lcg_random 15 (rnd_seed lcg_random 2297127009 g) = 765174520"
  by (simp add: drawn_state_num lcg_seed lcg_randint lcg_next_def)

lemma rgb_strings_sunset:
  "rgb_strings [155, 194, 147, 28, 220, 44, 154, 38, 174, 208, 35, 31, 153, 176, 155] =
     [''#9bc293'', ''#1cdc2c'', ''#9a26ae'', ''#d0231f'', ''#99b09b'']"
  by (simp add: format_color_def format_02x_byte byte_range_def hexdigit_def)

lemma lower_sunset: "lower ''sunset'' = ''sunset''" "lower ''Sunset'' = ''sunset''"
  by (simp_all add: lower_def lower_char_def char_of_def bit_Suc_0_iff)

lemma palette_sunset:
  "get_palette lcg_random ''sunset'' g =
     (Inr \<lparr>seed = ''sunset'',
           colors = [''#9bc293'', ''#1cdc2c'', ''#9a26ae'', ''#d0231f'', ''#99b09b''],
           keywords' =
             [''sunset'', ''sunset-vibe'', ''sunset-soft'', ''sunset-bold'', ''sunset-contrast'']\<rparr>,
      765174520)"
proof -
  have "strip ''sunset'' \<noteq> []"
    by (simp add: strip_sunset)
  from get_palette_nonblank [OF this seed_hash_sunset, of lcg_random g] show ?thesis
    by (simp only: draws_sunset drawn_state_sunset rgb_strings_sunset lower_sunset append.simps)
qed

section \<open>The claims\<close>

subsection \<open>C1: the same seed gives the same palette\<close>

text \<open>
  C1. For every seed \<open>s\<close> that is not blank, two invocations of \<open>get_palette\<close> with
  \<open>s\<close>, the second on the generator state the first has left, return the same
  response: the same list of 5 colors and the same list of 5 keywords. (The generator
  is one whose seeding resets it.)
\<close>

theorem palette_deterministic:
  assumes "seed_resets rnd" and "strip s \<noteq> []"
  shows "\<exists>p g1 g2. get_palette rnd s g = (Inr p, g1) \<and> get_palette rnd s g1 = (Inr p, g2)
           \<and> length (colors p) = 5 \<and> length (keywords' p) = 5"
proof -
  obtain n where n: "seed_hash s = Inr n"
    using seed_hash_value by blast
  let ?g1 = "drawn_state rnd 15 (rnd_seed rnd n g)"
  have same: "rnd_seed rnd n ?g1 = rnd_seed rnd n g"
    using assms(1) unfolding seed_resets_def by blast
  have first: "get_palette rnd s g =
      (Inr \<lparr>seed = s, colors = rgb_strings (draws rnd 15 (rnd_seed rnd n g)),
            keywords' = [lower s, s @ ''-vibe'', s @ ''-soft'', s @ ''-bold'', s @ ''-contrast'']\<rparr>,
       ?g1)"
    by (rule get_palette_nonblank [OF assms(2) n])
  have second: "get_palette rnd s ?g1 =
      (Inr \<lparr>seed = s, colors = rgb_strings (draws rnd 15 (rnd_seed rnd n g)),
            keywords' = [lower s, s @ ''-vibe'', s @ ''-soft'', s @ ''-bold'', s @ ''-contrast'']\<rparr>,
       ?g1)"
    using get_palette_nonblank [OF assms(2) n, of rnd ?g1] by (simp only: same)
  have "length (rgb_strings (draws rnd 15 (rnd_seed rnd n g))) = 5"
    by (simp add: rgb_strings_length draws_length)
  with first second show ?thesis
    by simp
qed

text \<open>
  C1 at the seed \<open>sunset\<close>, with the generator \<open>lcg_random\<close> in the state 0.
\<close>

theorem palette_deterministic_witness:
  "seed_resets lcg_random \<and> strip ''sunset'' \<noteq> [] \<and>
   (\<exists>p g1 g2. get_palette lcg_random ''sunset'' 0 = (Inr p, g1)
      \<and> get_palette lcg_random ''sunset'' g1 = (Inr p, g2)
      \<and> length (colors p) = 5 \<and> length (keywords' p) = 5)"
proof -
  have h: "strip ''sunset'' \<noteq> []"
    by (simp add: strip_sunset)
  show ?thesis
    using lcg_seed_resets h palette_deterministic [OF lcg_seed_resets h, of 0] by simp
qed

subsection \<open>C2: the derived numeric seed\<close>

text \<open>
  C2. For every string \<open>s\<close>, the number that \<open>get_palette\<close> computes as
  \<open>seed_hash\<close> is the first 8 hexadecimal characters of the MD5 hex digest of the
  UTF-8 encoding of \<open>s\<close> parsed as a 32-bit unsigned integer
  (\<open>derived_numeric_seed\<close>), and when \<open>s\<close> is not blank the generator is seeded
  with that number and with nothing else before the 15 draws that make the colors.
\<close>

theorem seed_hash_derived:
  "seed_hash s = Inr (int (derived_numeric_seed s)) \<and>
   (strip s \<noteq> [] \<longrightarrow>
      get_palette rnd s g =
        (Inr \<lparr>seed = s,
              colors = rgb_strings (draws rnd 15 (rnd_seed rnd (int (derived_numeric_seed s)) g)),
              keywords' = [lower s, s @ ''-vibe'', s @ ''-soft'', s @ ''-bold'', s @ ''-contrast'']\<rparr>,
         drawn_state rnd 15 (rnd_seed rnd (int (derived_numeric_seed s)) g)))"
  using seed_hash_parse_u32 [of s] get_palette_nonblank [of s "int (derived_numeric_seed s)" rnd g]
  by simp

text \<open>
  C2 at the seed \<open>sunset\<close>, whose digest begins with \<open>88eb6061\<close>.
\<close>

theorem seed_hash_derived_witness:
  "derived_numeric_seed ''sunset'' = 2297127009 \<and> seed_hash ''sunset'' = Inr 2297127009 \<and>
   strip ''sunset'' \<noteq> [] \<and>
   get_palette lcg_random ''sunset'' 0 =
     (Inr \<lparr>seed = ''sunset'',
           colors = rgb_strings (draws lcg_random 15 (rnd_seed lcg_random 2297127009 0)),
           keywords' = [lower ''sunset'', ''sunset-vibe'', ''sunset-soft'', ''sunset-bold'',
                        ''sunset-contrast'']\<rparr>,
      drawn_state lcg_random 15 (rnd_seed lcg_random 2297127009 0))"
proof -
  have h: "strip ''sunset'' \<noteq> []"
    by (simp add: strip_sunset)
  from seed_hash_derived [of "''sunset''" lcg_random 0] seed_hash_sunset
  have d: "derived_numeric_seed ''sunset'' = 2297127009"
    by simp
  from seed_hash_derived [of "''sunset''" lcg_random 0] h
  have "get_palette lcg_random ''sunset'' 0 =
     (Inr \<lparr>seed = ''sunset'',
           colors = rgb_strings (draws lcg_random 15
             (rnd_seed lcg_random (int (derived_numeric_seed ''sunset'')) 0)),
           keywords' = [lower ''sunset'', ''sunset'' @ ''-vibe'', ''sunset'' @ ''-soft'',
                        ''sunset'' @ ''-bold'', ''sunset'' @ ''-contrast'']\<rparr>,
      drawn_state lcg_random 15 (rnd_seed lcg_random (int (derived_numeric_seed ''sunset'')) 0))"
    by blast
  then show ?thesis
    using d h seed_hash_sunset by (simp only: append.simps of_nat_numeral) simp
qed

subsection \<open>C3: the colors\<close>

text \<open>
  C3. For every seed \<open>s\<close> that is not blank, the list \<open>colors\<close> of the response
  has exactly 5 entries; they are the 15 integers drawn one after the other from the
  generator seeded with \<open>seed_hash\<close>, each in [0, 255], read three at a time as red,
  green, blue; and every entry matches \<open>#[0-9a-f]{6}\<close> exactly. (The generator is one
  whose \<open>randint(a, b)\<close> stays within \<open>a\<close> and \<open>b\<close>; how its values are
  distributed is not part of the model.)
\<close>

theorem colors_shape:
  assumes "randint_in_range rnd" and "strip s \<noteq> []"
  shows "\<exists>p g' n. get_palette rnd s g = (Inr p, g') \<and> seed_hash s = Inr n
           \<and> colors p = rgb_strings (draws rnd 15 (rnd_seed rnd n g))
           \<and> list_all byte_range (draws rnd 15 (rnd_seed rnd n g))
           \<and> length (colors p) = 5
           \<and> list_all hex_color (colors p)"
proof -
  obtain n where n: "seed_hash s = Inr n"
    using seed_hash_value by blast
  let ?ds = "draws rnd 15 (rnd_seed rnd n g)"
  have r: "list_all byte_range ?ds"
    by (rule draws_range [OF assms(1)])
  then have h: "list_all hex_color (rgb_strings ?ds)"
    by (rule rgb_strings_hex)
  have l: "length (rgb_strings ?ds) = 5"
    by (simp add: rgb_strings_length draws_length)
  show ?thesis
    using get_palette_nonblank [OF assms(2) n, of rnd g] n r h l by simp
qed

text \<open>
  C3 at the seed \<open>sunset\<close>, with the generator \<open>lcg_random\<close> in the state 0.
\<close>

theorem colors_shape_witness:
  "randint_in_range lcg_random \<and> strip ''sunset'' \<noteq> [] \<and>
   (\<exists>p g'. get_palette lcg_random ''sunset'' 0 = (Inr p, g')
      \<and> colors p = [''#9bc293'', ''#1cdc2c'', ''#9a26ae'', ''#d0231f'', ''#99b09b'']
      \<and> length (colors p) = 5 \<and> list_all hex_color (colors p))"
proof -
  have h: "strip ''sunset'' \<noteq> []"
    by (simp add: strip_sunset)
  from colors_shape [OF lcg_randint_in_range h, of 0]
  obtain p g' n where p: "get_palette lcg_random ''sunset'' 0 = (Inr p, g')"
    "seed_hash ''sunset'' = Inr n"
    "colors p = rgb_strings (draws lcg_random 15 (rnd_seed lcg_random n 0))"
    "length (colors p) = 5" "list_all hex_color (colors p)"
    by blast
  from p(2) have "n = 2297127009"
    by (simp add: seed_hash_sunset)
  with p(3) have "colors p = [''#9bc293'', ''#1cdc2c'', ''#9a26ae'', ''#d0231f'', ''#99b09b'']"
    by (simp only: draws_sunset rgb_strings_sunset)
  with p(1,4,5) lcg_randint_in_range h show ?thesis
    by blast
qed

subsection \<open>C4: the keywords\<close>

text \<open>
  C4. For every seed \<open>s\<close> that is not blank, the list \<open>keywords\<close> of the response
  is \<open>lower s\<close>, then \<open>s\<close> followed by \<open>-vibe\<close>, \<open>-soft\<close>, \<open>-bold\<close> and
  \<open>-contrast\<close>, in that order: 5 entries, of which only the first is lowercased; and
  the field \<open>seed\<close> of the response is \<open>s\<close> itself.
\<close>

theorem keywords_shape:
  assumes "strip s \<noteq> []"
  shows "\<exists>p g'. get_palette rnd s g = (Inr p, g')
           \<and> keywords' p = [lower s, s @ ''-vibe'', s @ ''-soft'', s @ ''-bold'', s @ ''-contrast'']
           \<and> length (keywords' p) = 5 \<and> seed p = s"
proof -
  obtain n where n: "seed_hash s = Inr n"
    using seed_hash_value by blast
  show ?thesis
    using get_palette_nonblank [OF assms n, of rnd g] by simp
qed

text \<open>
  C4 at the seeds \<open>sunset\<close> and \<open>Sunset\<close>.
\<close>

theorem keywords_shape_witness:
  "strip ''sunset'' \<noteq> [] \<and> strip ''Sunset'' \<noteq> [] \<and>
   (\<exists>p g'. get_palette lcg_random ''sunset'' 0 = (Inr p, g')
      \<and> keywords' p = [''sunset'', ''sunset-vibe'', ''sunset-soft'', ''sunset-bold'', ''sunset-contrast'']
      \<and> seed p = ''sunset'') \<and>
   (\<exists>p g'. get_palette lcg_random ''Sunset'' 0 = (Inr p, g')
      \<and> keywords' p = [''sunset'', ''Sunset-vibe'', ''Sunset-soft'', ''Sunset-bold'', ''Sunset-contrast'']
      \<and> seed p = ''Sunset'')"
proof -
  have h1: "strip ''sunset'' \<noteq> []" and h2: "strip ''Sunset'' \<noteq> []"
    by (simp_all add: strip_def isspace_def)
  show ?thesis
    using h1 h2 keywords_shape [OF h1, of lcg_random 0] keywords_shape [OF h2, of lcg_random 0]
    by (auto simp: lower_sunset)
qed

subsection \<open>C5: which inputs make \<open>get_palette\<close> raise\<close>

text \<open>
  C5, as stated, says that \<open>get_palette\<close> raises on no input that is not empty,
  strings of blanks included. It fails on the string of three spaces: \<open>get_palette\<close>
  tests blankness itself and raises its \<open>HTTPException\<close>.
\<close>

theorem whitespace_raises:
  "''   '' \<noteq> [] \<and>
   get_palette lcg_random ''   '' 0 = (Inl (HTTPException 422 ''s must not be blank''), 0)"
  by (simp add: get_palette_def strip_blanks)

text \<open>
  C5, amended. On strings of any code points (\<open>get_palette_u\<close>), \<open>get_palette\<close>
  tests blankness itself: it raises the \<open>HTTPException\<close> with status 422 and detail
  \<open>s must not be blank\<close> exactly on the inputs whose stripped form is empty. On every
  input whose stripped form is not empty and that holds no lone surrogate, so that it
  can be encoded, it raises nothing and returns a response. (What \<open>s.encode()\<close> does
  on a lone surrogate is \<open>get_palette_u_surrogate\<close>.)
\<close>

theorem get_palette_u_raises:
  "((fst (get_palette_u rnd low s g) = Inl (HTTPException 422 ''s must not be blank''))
      = (strip_u s = []))
   \<and> (strip_u s \<noteq> [] \<and> \<not> list_ex surrogate s \<longrightarrow>
        (\<exists>p. fst (get_palette_u rnd low s g) = Inr p))"
proof (cases "strip_u s = []")
  case True
  then show ?thesis
    by (simp add: get_palette_u_def)
next
  case False
  then have ne: "s \<noteq> []"
    using strip_u_Nil by auto
  show ?thesis
  proof (cases "seed_hash_u s")
    case (Inl e)
    then have "e = UnicodeEncodeError" and "list_ex surrogate s"
      using seed_hash_u_error [of s e] seed_hash_u_ok [of s] by auto
    then show ?thesis
      using False ne Inl by (simp add: get_palette_u_def)
  next
    case (Inr n)
    then show ?thesis
      using False ne by (simp add: get_palette_u_def split_beta Let_def)
  qed
qed

text \<open>
  C5, amended, at three spaces and at a string of three code points of three bytes each.
\<close>

theorem get_palette_u_raises_witness:
  "strip_u [32, 32, 32] = [] \<and>
   fst (get_palette_u lcg_random lower_u [32, 32, 32] 0)
     = Inl (HTTPException 422 ''s must not be blank'') \<and>
   strip_u [26085, 26412, 35486] \<noteq> [] \<and> \<not> list_ex surrogate [26085, 26412, 35486] \<and>
   (\<exists>p. fst (get_palette_u lcg_random lower_u [26085, 26412, 35486] 0) = Inr p)"
proof -
  have h1: "strip_u [32, 32, 32] = []"
    and h2: "strip_u [26085, 26412, 35486] \<noteq> []"
    and h3: "\<not> list_ex surrogate [26085, 26412, 35486]"
    by (simp_all add: strip_u_def isspace_u_def surrogate_def)
  show ?thesis
    using h1 h2 h3 get_palette_u_raises [of lcg_random lower_u "[32, 32, 32]" 0]
      get_palette_u_raises [of lcg_random lower_u "[26085, 26412, 35486]" 0]
    by blast
qed

subsection \<open>C6: the greeting\<close>

text \<open>
  C6. For every \<open>name\<close>, \<open>hello_name\<close> returns the message \<open>Hello, \<close> followed by
  \<open>name\<close> as it was given and \<open>!\<close> whenever the stripped form of \<open>name\<close> is not
  empty, and it raises the \<open>HTTPException\<close> with status 400 and detail
  \<open>Name cannot be empty\<close> if and only if the stripped form of \<open>name\<close> is empty; it
  raises nothing else.
\<close>

theorem hello_name_spec:
  "(strip name \<noteq> [] \<longrightarrow> hello_name name = Inr \<lparr>message = ''Hello, '' @ name @ ''!''\<rparr>) \<and>
   ((hello_name name = Inl (HTTPException 400 ''Name cannot be empty'')) = (strip name = [])) \<and>
   (\<forall>e. hello_name name = Inl e \<longrightarrow>
      e = HTTPException 400 ''Name cannot be empty'' \<and> status_code e = 400)"
proof (cases "strip name = []")
  case True
  then show ?thesis
    by (simp add: hello_name_def)
next
  case False
  then have "name \<noteq> []"
    using strip_Nil by auto
  with False show ?thesis
    by (simp add: hello_name_def)
qed

text \<open>
  C6 at \<open>Mike\<close> between two spaces, and at three spaces.
\<close>

theorem hello_name_spec_witness:
  "strip '' Mike '' \<noteq> [] \<and> hello_name '' Mike '' = Inr \<lparr>message = ''Hello,  Mike !''\<rparr> \<and>
   strip ''   '' = [] \<and> hello_name ''   '' = Inl (HTTPException 400 ''Name cannot be empty'') \<and>
   status_code (HTTPException 400 ''Name cannot be empty'') = 400"
proof -
  have h1: "strip '' Mike '' \<noteq> []" and h2: "strip ''   '' = []"
    by (simp_all add: strip_def isspace_def)
  from hello_name_spec [of "'' Mike ''"] h1
  have a: "hello_name '' Mike '' = Inr \<lparr>message = ''Hello, '' @ '' Mike '' @ ''!''\<rparr>"
    by blast
  from hello_name_spec [of "''   ''"] h2
  have b: "hello_name ''   '' = Inl (HTTPException 400 ''Name cannot be empty'')"
    by blast
  show ?thesis
    using a b h1 h2 by simp
qed

subsection \<open>C7: the two errors of the palette operation\<close>

text \<open>
  C7, as stated, says that the error for a missing parameter \<open>s\<close> and the error for
  a blank \<open>s\<close> belong to different classes of status codes. They do not: both are
  answered with status 422.
\<close>

theorem palette_errors_same_status:
  "fst (palette_request lcg_random None 0) = Inl RequestValidationError \<and>
   fst (palette_request lcg_random (Some ''   '') 0) = Inl (HTTPException 422 ''s must not be blank'') \<and>
   status_code RequestValidationError = status_code (HTTPException 422 ''s must not be blank'')"
  by (simp add: palette_request_def get_palette_def strip_blanks)

text \<open>
  C7, amended. The palette operation has exactly two errors: the framework's
  validation error when the parameter \<open>s\<close> is missing, and the \<open>HTTPException\<close> with
  detail \<open>s must not be blank\<close> when \<open>s\<close> is present and its stripped form is
  empty. They are different errors, and both have the status 422.
\<close>

theorem palette_request_errors:
  "(fst (palette_request rnd q g) = Inl e \<longleftrightarrow>
      q = None \<and> e = RequestValidationError
      \<or> (\<exists>s. q = Some s \<and> strip s = [] \<and> e = HTTPException 422 ''s must not be blank''))
   \<and> (fst (palette_request rnd q g) = Inl e \<longrightarrow> status_code e = 422)
   \<and> RequestValidationError \<noteq> HTTPException 422 ''s must not be blank''"
proof (cases q)
  case None
  then show ?thesis
    by (auto simp: palette_request_def)
next
  case (Some s)
  obtain n where n: "seed_hash s = Inr n"
    using seed_hash_value by blast
  show ?thesis
  proof (cases "strip s = []")
    case True
    then show ?thesis
      using Some get_palette_blank [of s rnd g] by (auto simp: palette_request_def)
  next
    case False
    then show ?thesis
      using Some get_palette_nonblank [OF False n, of rnd g] by (auto simp: palette_request_def)
  qed
qed

text \<open>
  C7, amended, at a request without \<open>s\<close> and at one where \<open>s\<close> is three spaces.
\<close>

theorem palette_request_errors_witness:
  "fst (palette_request lcg_random None 0) = Inl RequestValidationError \<and>
   status_code RequestValidationError = 422 \<and>
   strip ''   '' = [] \<and>
   fst (palette_request lcg_random (Some ''   '') 0) = Inl (HTTPException 422 ''s must not be blank'') \<and>
   status_code (HTTPException 422 ''s must not be blank'') = 422"
proof -
  have h: "strip ''   '' = []"
    by (rule strip_blanks)
  show ?thesis
    using h palette_request_errors [of lcg_random None 0 RequestValidationError]
      palette_request_errors [of lcg_random "Some ''   ''" 0 "HTTPException 422 ''s must not be blank''"]
    by simp
qed

subsection \<open>C8: the generator is the shared one\<close>

text \<open>
  C8, as stated, says that the generator is local to each call and that no state is
  shared across invocations. It is not: \<open>get_palette\<close> seeds and draws from the
  generator of the module, and the state of that generator after a call is not the
  state before it.
\<close>

theorem shared_generator_changed:
  "snd (get_palette lcg_random ''sunset'' 0) \<noteq> 0"
  by (simp add: palette_sunset)

text \<open>
  C8, amended. \<open>get_palette\<close> works on the shared generator: a call with a seed
  that is not blank seeds it anew and leaves it in the state after the 15th draw; what
  the call returns does not depend on the state it found. (This is for a call whose
  seeding and draws run with no other use of the generator in between; calls that
  interleave are outside this model.)
\<close>

theorem shared_generator_reseeded:
  assumes "seed_resets rnd" and "strip s \<noteq> []"
  shows "fst (get_palette rnd s g) = fst (get_palette rnd s g') \<and>
         (\<exists>n. seed_hash s = Inr n \<and>
            snd (get_palette rnd s g) = drawn_state rnd 15 (rnd_seed rnd n g))"
proof -
  obtain n where n: "seed_hash s = Inr n"
    using seed_hash_value by blast
  have "rnd_seed rnd n g = rnd_seed rnd n g'"
    using assms(1) unfolding seed_resets_def by blast
  then show ?thesis
    using get_palette_nonblank [OF assms(2) n, of rnd g]
      get_palette_nonblank [OF assms(2) n, of rnd g'] n
    by simp
qed

text \<open>
  C8, amended, at the seed \<open>sunset\<close>, from the states 0 and 12345.
\<close>

theorem shared_generator_reseeded_witness:
  "seed_resets lcg_random \<and> strip ''sunset'' \<noteq> [] \<and>
   fst (get_palette lcg_random ''sunset'' 0) = fst (get_palette lcg_random ''sunset'' 12345) \<and>
   snd (get_palette lcg_random ''sunset'' 0) = 765174520"
proof -
  have h: "strip ''sunset'' \<noteq> []"
    by (simp add: strip_sunset)
  from shared_generator_reseeded [OF lcg_seed_resets h, of 0 12345]
  obtain n where "fst (get_palette lcg_random ''sunset'' 0) = fst (get_palette lcg_random ''sunset'' 12345)"
    "seed_hash ''sunset'' = Inr n"
    "snd (get_palette lcg_random ''sunset'' 0) = drawn_state lcg_random 15 (rnd_seed lcg_random n 0)"
    by blast
  then show ?thesis
    using lcg_seed_resets h by (simp add: seed_hash_sunset drawn_state_sunset)
qed

subsection \<open>C9: a blank input leaves the generator alone\<close>

text \<open>
  C9. For every input \<open>s\<close> whose stripped form is empty, \<open>get_palette\<close> raises its
  validation error before it seeds the generator: the state of the shared generator
  after the call is the state before it.
\<close>

theorem blank_leaves_generator:
  assumes "strip s = []"
  shows "get_palette rnd s g = (Inl (HTTPException 422 ''s must not be blank''), g)"
proof -
  have "s = [] \<or> strip s = []"
    using assms by simp
  then show ?thesis
    unfolding get_palette_def by (simp only: if_True)
qed

text \<open>
  C9 at three spaces, with the generator in the state 7.
\<close>

theorem blank_leaves_generator_witness:
  "strip ''   '' = [] \<and>
   get_palette lcg_random ''   '' 7 = (Inl (HTTPException 422 ''s must not be blank''), 7)"
  using strip_blanks blank_leaves_generator [OF strip_blanks, of lcg_random 7] by simp

subsection \<open>C10: the derived seed is a 32-bit value\<close>

text \<open>
  C10. For every input string, the derived numeric seed that \<open>get_palette\<close> computes
  exists (the conversion does not raise) and lies in the range from 0 up to, and not
  including, \<open>2 ^ 32\<close>: eight hexadecimal digits fit a 32-bit unsigned integer.
\<close>

theorem seed_hash_range: "\<exists>n. seed_hash s = Inr n \<and> 0 \<le> n \<and> n < 2 ^ 32"
proof -
  obtain n where "seed_hash s = Inr n" "0 \<le> n" "n < 16 ^ 8"
    using seed_hash_value by blast
  then show ?thesis
    by auto
qed

end
